theory Spec2Isabelle
  imports Complex_Main "HOL-Library.Sublist" "HOL-Library.Char_ord"
    "HOL-Library.List_Lexorder" "HOL-Library.Multiset"
begin

section \<open>GetSeq: the Ensembl REST client of getseq\_cmd.py\<close>

text \<open>
  The development follows \<^verbatim>\<open>src/getseq_cmd.py\<close>. Python strings are \<open>string\<close>
  (ASCII text), Python integers are \<open>int\<close>, exceptions are values of \<open>error\<close>, and the
  mutable client object and the outside world (clock, HTTP server, standard output, files)
  are passed explicitly. Logging calls write to the log only and are left out.
\<close>

subsection \<open>Exceptions\<close>

datatype error =
    SystemExit int
  | IndexError
  | UnboundLocalError
  | HTTPError nat
  | JSONDecodeError

subsection \<open>Python string operations used by the client\<close>

text \<open>\<^verbatim>\<open>str(n)\<close> for a Python integer: decimal digits, a minus sign for negatives.\<close>

fun str_nat :: "nat \<Rightarrow> string" where
  "str_nat n =
     (if n < 10 then [''0123456789'' ! n]
      else str_nat (n div 10) @ [''0123456789'' ! (n mod 10)])"

declare str_nat.simps [simp del]

definition str_int :: "int \<Rightarrow> string" where
  "str_int i = (if i < 0 then CHR ''-'' # str_nat (nat (- i)) else str_nat (nat i))"

text \<open>\<^verbatim>\<open>s.isdigit()\<close> on ASCII text: non-empty and decimal digits only.\<close>

definition isdigit :: "string \<Rightarrow> bool" where
  "isdigit s = (s \<noteq> [] \<and> list_all (\<lambda>c. c \<in> set ''0123456789'') s)"

text \<open>\<^verbatim>\<open>p in s\<close>, and \<^verbatim>\<open>str.contains(p)\<close> for a pattern without regex operators.\<close>

fun contains :: "string \<Rightarrow> string \<Rightarrow> bool" where
  "contains p [] = (p = [])"
| "contains p (x # xs) = (prefix p (x # xs) \<or> contains p xs)"

text \<open>
  \<^verbatim>\<open>s.replace(p, r)\<close>: every non-overlapping occurrence of \<open>p\<close>, scanning from the left.
\<close>

fun str_replace :: "string \<Rightarrow> string \<Rightarrow> string \<Rightarrow> string" where
  "str_replace p r [] = (if p = [] then r else [])"
| "str_replace p r (x # xs) =
     (if prefix p (x # xs) then r @ str_replace p r (drop (length p - 1) xs)
      else x # str_replace p r xs)"

text \<open>\<^verbatim>\<open>"%-40s" % s\<close>: pad on the right with blanks up to the width.\<close>

definition ljust :: "nat \<Rightarrow> string \<Rightarrow> string" where
  "ljust n s = s @ replicate (n - length s) CHR '' ''"

definition nl :: string where
  "nl = [CHR 0x0A]"

subsection \<open>The table read from the BED input\<close>

text \<open>
  A cell of the pandas frame: an integer (a column that parsed as int64), a string (an
  object column) or the missing value. Float columns are outside the model.
\<close>

datatype cell = IntCell int | StrCell string | NaN

record row =
  chrom :: cell
  start :: cell
  end' :: cell

text \<open>
  What \<^verbatim>\<open>pd.read_csv\<close> hands back (lines 121-127): the rows of columns 0, 1, 2, or a
  \<^verbatim>\<open>ValueError\<close> with its message.
\<close>

datatype csv = Parsed "row list" | ValueError string

text \<open>\<^verbatim>\<open>str(cell)\<close> and \<^verbatim>\<open>astype(str)\<close>.\<close>

fun astype_str :: "cell \<Rightarrow> string" where
  "astype_str (IntCell i) = str_int i"
| "astype_str (StrCell s) = s"
| "astype_str NaN = ''nan''"

text \<open>
  \<^verbatim>\<open>Series.str.replace(p, r)\<close> on an object column: strings are rewritten, any other
  element becomes the missing value.
\<close>

fun series_str_replace :: "string \<Rightarrow> string \<Rightarrow> cell \<Rightarrow> cell" where
  "series_str_replace p r (StrCell s) = StrCell (str_replace p r s)"
| "series_str_replace p r (IntCell i) = NaN"
| "series_str_replace p r NaN = NaN"

subsection \<open>get\_regions\<close>

text \<open>
  Lines 129-138: the header check on the first row. An empty frame makes
  \<^verbatim>\<open>reads.iloc[0]\<close> raise \<^verbatim>\<open>IndexError\<close>.
\<close>

definition check_header :: "row list \<Rightarrow> error + row list" where
  "check_header reads =
     (case reads of
        [] \<Rightarrow> Inl IndexError
      | r # rest \<Rightarrow>
          (let start_cell = start r in
           if isdigit (astype_str start_cell) then Inr reads
           else if start_cell = StrCell ''start'' \<or> start_cell = StrCell ''Start''
             then Inr rest
           else Inl (SystemExit 1)))"

text \<open>Lines 158-159 on one chromosome name.\<close>

definition canon_chrom :: "string \<Rightarrow> string" where
  "canon_chrom s = str_replace ''chr'' '''' (str_replace ''chrM'' ''MT'' s)"

text \<open>Lines 156-161: the whole column is rewritten as soon as one name contains "chr".\<close>

definition canon_chroms :: "row list \<Rightarrow> row list" where
  "canon_chroms reads =
     (if list_ex (\<lambda>r. contains ''chr'' (astype_str (chrom r))) reads
      then map (\<lambda>r. r\<lparr>chrom :=
                 series_str_replace ''chr'' '''' (series_str_replace ''chrM'' ''MT'' (chrom r))\<rparr>)
             reads
      else reads)"

text \<open>Lines 165-166: the region string of one row.\<close>

definition region :: "row \<Rightarrow> string" where
  "region r = astype_str (chrom r) @ '':'' @ astype_str (start r) @ ''..'' @ astype_str (end' r)"

text \<open>
  \<^verbatim>\<open>groupby(np.arange(len(reads)) // 50)\<close>: consecutive groups of \<open>n\<close> rows, the
  last one possibly shorter.
\<close>

fun chunks :: "nat \<Rightarrow> 'a list \<Rightarrow> 'a list list" where
  "chunks n [] = []"
| "chunks n (x # xs) = (x # take (n - 1) xs) # chunks n (drop (n - 1) xs)"

text \<open>
  A Python dict in insertion order. \<^verbatim>\<open>d.update({k: v})\<close> overwrites the value of a key
  that is present, in place, and appends a new key at the end.
\<close>

type_synonym ('k, 'v) dict = "('k \<times> 'v) list"

fun dict_update :: "'k \<Rightarrow> 'v \<Rightarrow> ('k, 'v) dict \<Rightarrow> ('k, 'v) dict" where
  "dict_update k v [] = [(k, v)]"
| "dict_update k v (p # ps) = (if fst p = k then (k, v) # ps else p # dict_update k v ps)"

text \<open>Lines 164-169: one dict entry per group, keyed by the group's first region.\<close>

definition add_group :: "row list \<Rightarrow> (string, string list) dict \<Rightarrow> (string, string list) dict" where
  "add_group subreads regions =
     (case map region subreads of
        [] \<Rightarrow> regions
      | k # ks \<Rightarrow> dict_update k (k # ks) regions)"

definition group_regions :: "row list \<Rightarrow> (string, string list) dict" where
  "group_regions reads = fold add_group (chunks 50 reads) []"

text \<open>
  Lines 149-176, from the rows kept by the header check. Line 173 takes
  \<^verbatim>\<open>regions_list[0]\<close>, which raises \<^verbatim>\<open>IndexError\<close> when no group was built.
\<close>

definition build_regions :: "row list \<Rightarrow> error + (string, string list) dict" where
  "build_regions reads =
     (let regions = group_regions (canon_chroms reads) in
      case regions of
        [] \<Rightarrow> Inl IndexError
      | _ # _ \<Rightarrow> Inr regions)"

text \<open>
  The whole function. A \<^verbatim>\<open>ValueError\<close> of the reader exits with status 1 when its
  message names the column mismatch; any other one is swallowed by the handler, and line 151
  then reads the unassigned local \<^verbatim>\<open>reads\<close>.
\<close>

definition get_regions :: "csv \<Rightarrow> error + (string, string list) dict" where
  "get_regions bed =
     (case bed of
        ValueError e \<Rightarrow>
          if contains ''Usecols do not match columns'' e then Inl (SystemExit 1)
          else Inl UnboundLocalError
      | Parsed frame \<Rightarrow>
          (case check_header frame of
             Inl err \<Rightarrow> Inl err
           | Inr reads \<Rightarrow> build_regions reads))"

subsection \<open>The client object and the world around it\<close>

record client =
  server :: string
  reqs_per_sec :: int
  req_count :: int
  last_req :: real

text \<open>The constructor (lines 17-21) and its default arguments.\<close>

definition EnsemblRestClient :: "string \<Rightarrow> int \<Rightarrow> client" where
  "EnsemblRestClient srv rps =
     \<lparr>server = srv, reqs_per_sec = rps, req_count = 0, last_req = 0\<rparr>"

definition default_client :: client where
  "default_client = EnsemblRestClient ''https://rest.ensembl.org'' 15"

datatype http_method = GET | POST

text \<open>
  An outgoing request. \<open>url\<close> is server, endpoint and the question mark; \<open>query\<close> holds the
  parameters that \<^verbatim>\<open>urlencode\<close> renders behind it; \<open>data\<close> is the value whose
  \<^verbatim>\<open>json.dumps\<close> text is the payload of a POST.
\<close>

type_synonym payload = "(string, string list) dict"

record request =
  meth :: http_method
  url :: string
  query :: "(string \<times> string) list"
  headers :: "(string \<times> string) list"
  data :: "payload option"

text \<open>
  A response: the status code and what \<^verbatim>\<open>request.json()\<close> decodes, \<open>None\<close> when the
  text is not JSON. The decoded value is typed by the endpoint that answers.
\<close>

record 'a response =
  status :: nat
  json :: "'a option"

text \<open>\<^verbatim>\<open>Response.ok\<close> of the requests library: no 4xx or 5xx status.\<close>

definition ok :: "'a response \<Rightarrow> bool" where
  "ok r = (\<not> (400 \<le> status r \<and> status r < 600))"

text \<open>
  The world: \<open>clock\<close> gives the successive values of \<^verbatim>\<open>time.time()\<close> and \<open>ticks\<close>
  counts the readings taken; \<open>slept\<close> records every \<^verbatim>\<open>time.sleep\<close>; \<open>respond\<close> is the
  server's answer to the n-th request; \<open>sent\<close> records the requests issued; \<open>stdout\<close> and
  \<open>files\<close> hold the text written.
\<close>

record 'a world =
  clock :: "nat \<Rightarrow> real"
  ticks :: nat
  slept :: "real list"
  respond :: "nat \<Rightarrow> request \<Rightarrow> 'a response"
  sent :: "request list"
  stdout :: string
  files :: "string \<Rightarrow> string option"

subsection \<open>perform\_rest\_action\<close>

text \<open>Lines 31-36: the rate limit check.\<close>

definition check_rate_limit :: "client \<Rightarrow> 'a world \<Rightarrow> client \<times> 'a world" where
  "check_rate_limit c w =
     (if req_count c \<ge> reqs_per_sec c then
        (let delta = clock w (ticks w) - last_req c;
             w1 = w\<lparr>ticks := ticks w + 1\<rparr>;
             w2 = (if delta < 1 then w1\<lparr>slept := slept w1 @ [1 - delta]\<rparr> else w1);
             c' = c\<lparr>last_req := clock w2 (ticks w2), req_count := 0\<rparr>
         in (c', w2\<lparr>ticks := ticks w2 + 1\<rparr>))
      else (c, w))"

text \<open>Truth value of an optional dict: \<^verbatim>\<open>None\<close> and the empty dict are false.\<close>

fun truthy :: "('k, 'v) dict option \<Rightarrow> bool" where
  "truthy None = False"
| "truthy (Some d) = (d \<noteq> [])"

text \<open>Lines 41-45: the request that is built.\<close>

definition build_request ::
  "client \<Rightarrow> string \<Rightarrow> (string \<times> string) list \<Rightarrow> (string \<times> string) list
     \<Rightarrow> payload option \<Rightarrow> request" where
  "build_request c endpoint hdrs params regions =
     (if truthy regions
      then \<lparr>meth = POST, url = server c @ endpoint @ ''?'',
            query = (if params \<noteq> [] then params else []), headers = hdrs, data = regions\<rparr>
      else \<lparr>meth = GET, url = server c @ endpoint @ ''?'',
            query = (if params \<noteq> [] then params else []), headers = hdrs, data = None\<rparr>)"

text \<open>
  The whole method. The client and the world are returned also when the call raises, as
  they are at that moment.
\<close>

definition perform_rest_action ::
  "client \<Rightarrow> 'a world \<Rightarrow> string \<Rightarrow> (string \<times> string) list \<Rightarrow> (string \<times> string) list
     \<Rightarrow> payload option \<Rightarrow> (error + 'a) \<times> client \<times> 'a world" where
  "perform_rest_action c w endpoint hdrs params regions =
     (let (c1, w1) = check_rate_limit c w;
          req = build_request c1 endpoint hdrs params regions;
          resp = respond w1 (length (sent w1)) req;
          w2 = w1\<lparr>sent := sent w1 @ [req]\<rparr>
      in if \<not> ok resp then (Inl (HTTPError (status resp)), c1, w2)
         else (case json resp of
                 None \<Rightarrow> (Inl JSONDecodeError, c1, w2)
               | Some d \<Rightarrow> (Inr d, c1\<lparr>req_count := req_count c1 + 1\<rparr>, w2)))"

text \<open>Any series of calls on one client, whatever each call's outcome.\<close>

record call =
  c_endpoint :: string
  c_hdrs :: "(string \<times> string) list"
  c_params :: "(string \<times> string) list"
  c_regions :: "payload option"

fun perform_calls :: "client \<Rightarrow> 'a world \<Rightarrow> call list \<Rightarrow> client \<times> 'a world" where
  "perform_calls c w [] = (c, w)"
| "perform_calls c w (x # xs) =
     (case perform_rest_action c w (c_endpoint x) (c_hdrs x) (c_params x) (c_regions x) of
        (_, c', w') \<Rightarrow> perform_calls c' w' xs)"

subsection \<open>The catalogue queries\<close>

record genome =
  name :: string
  display_name :: string

text \<open>The decoded answer of \<^verbatim>\<open>/info/species\<close>, an object with the key "species".\<close>

record species_doc =
  species :: "genome list"

text \<open>
  get\_genomes (lines 56-74). The decoded object has a key, so \<^verbatim>\<open>if releases:\<close> holds.
  \<^verbatim>\<open>sorted(..., key=...)\<close> is a stable sort on the names, compared as Python compares
  strings: character by character, a proper prefix first.
\<close>

definition genome_line :: "genome \<Rightarrow> string" where
  "genome_line i = ljust 40 (name i) @ '' '' @ display_name i @ nl"

definition genomes_header :: string where
  "genomes_header =
     ljust 40 ''Name'' @ '' '' @ ''Display name'' @ nl @
     replicate 30 CHR ''-'' @ '' '' @ replicate 9 CHR '' '' @ '' '' @ replicate 30 CHR ''-'' @ nl"

definition get_genomes ::
  "client \<Rightarrow> species_doc world \<Rightarrow> (error + unit) \<times> client \<times> species_doc world" where
  "get_genomes c w =
     (let hdrs = [(''Content-Type'', ''application/json'')];
          params = [];
          endpoint = ''/info/species''
      in case perform_rest_action c w endpoint hdrs params None of
           (Inl e, c', w') \<Rightarrow> (Inl e, c', w')
         | (Inr releases, c', w') \<Rightarrow>
             (let sorted_releases = sort_key name (species releases)
              in (Inr (), c',
                  w'\<lparr>stdout := stdout w' @ genomes_header
                               @ concat (map genome_line sorted_releases)\<rparr>)))"

text \<open>The decoded answer of \<^verbatim>\<open>/info/assembly/<species>\<close>.\<close>

record assembly_doc =
  coord_system_versions :: "string list"

definition get_assemblies ::
  "client \<Rightarrow> assembly_doc world \<Rightarrow> string \<Rightarrow> (error + unit) \<times> client \<times> assembly_doc world" where
  "get_assemblies c w sp =
     (let hdrs = [(''Content-Type'', ''application/json'')];
          params = [];
          endpoint = ''/info/assembly/'' @ sp
      in case perform_rest_action c w endpoint hdrs params None of
           (Inl e, c', w') \<Rightarrow> (Inl e, c', w')
         | (Inr genomes, c', w') \<Rightarrow>
             (Inr (), c',
              w'\<lparr>stdout := stdout w'
                     @ concat (map (\<lambda>item. item @ nl) (coord_system_versions genomes))\<rparr>))"

subsection \<open>Sequence retrieval\<close>

text \<open>One entry of the decoded answer of \<^verbatim>\<open>/sequence/region/<species>\<close>.\<close>

record sequence =
  id' :: string
  seq :: string

definition get_sequences ::
  "client \<Rightarrow> sequence list world \<Rightarrow> string \<Rightarrow> string \<Rightarrow> payload \<Rightarrow> int \<Rightarrow> int
     \<Rightarrow> (error + sequence list) \<times> client \<times> sequence list world" where
  "get_sequences c w sp assembly regions upstream downstream =
     (let hdrs = [(''Content-Type'', ''application/json''), (''Accept'', ''application/json'')];
          params = [(''coord_system_version'', assembly),
                    (''expand_3prime'', str_int downstream),
                    (''expand_5prime'', str_int upstream)];
          endpoint = ''/sequence/region/'' @ sp
      in perform_rest_action c w endpoint hdrs params (Some regions))"

text \<open>
  submit\_regions (lines 107-113): the loop over the dict's items, with the sequences
  collected so far. An exception leaves the loop at once.
\<close>

fun submit_loop ::
  "client \<Rightarrow> sequence list world \<Rightarrow> string \<Rightarrow> string \<Rightarrow> (string, string list) dict
     \<Rightarrow> int \<Rightarrow> int \<Rightarrow> sequence list
     \<Rightarrow> (error + sequence list) \<times> client \<times> sequence list world" where
  "submit_loop c w sp assembly [] upstream downstream sequences = (Inr sequences, c, w)"
| "submit_loop c w sp assembly ((key, val) # items) upstream downstream sequences =
     (case get_sequences c w sp assembly [(''regions'', val)] upstream downstream of
        (Inl e, c', w') \<Rightarrow> (Inl e, c', w')
      | (Inr sub_sequences, c', w') \<Rightarrow>
          submit_loop c' w' sp assembly items upstream downstream (sequences @ sub_sequences))"

definition submit_regions ::
  "client \<Rightarrow> sequence list world \<Rightarrow> string \<Rightarrow> string \<Rightarrow> (string, string list) dict
     \<Rightarrow> int \<Rightarrow> int \<Rightarrow> (error + sequence list) \<times> client \<times> sequence list world" where
  "submit_regions c w sp assembly regions upstream downstream =
     submit_loop c w sp assembly regions upstream downstream []"

text \<open>The command line arguments of the "sequences" command that the code reads.\<close>

record args =
  a_species :: string
  a_assembly :: string
  a_output :: "string option"
  a_upstream :: int
  a_downstream :: int

definition fasta :: "sequence \<Rightarrow> string" where
  "fasta s = ''>'' @ id' s @ nl @ seq s @ nl"

text \<open>
  retrieve\_seq (lines 179-202); \<open>bed\<close> is what the reader returns for the input named by
  the arguments. Sequences are written only after submit\_regions has returned.
\<close>

definition retrieve_seq ::
  "args \<Rightarrow> csv \<Rightarrow> sequence list world \<Rightarrow> (error + unit) \<times> sequence list world" where
  "retrieve_seq a bed w =
     (let cl = default_client in
      case get_regions bed of
        Inl e \<Rightarrow> (Inl e, w)
      | Inr regions \<Rightarrow>
          (case submit_regions cl w (a_species a) (a_assembly a) regions
                  (a_upstream a) (a_downstream a) of
             (Inl e, c', w') \<Rightarrow> (Inl e, w')
           | (Inr sequences, c', w') \<Rightarrow>
               (Inr (),
                if sequences \<noteq> [] then
                  (case a_output a of
                     None \<Rightarrow> w'\<lparr>stdout := stdout w' @ concat (map fasta sequences)\<rparr>
                   | Some f \<Rightarrow>
                       if f \<noteq> [] then w'\<lparr>files := (files w')(f \<mapsto> concat (map fasta sequences))\<rparr>
                       else w'\<lparr>stdout := stdout w' @ concat (map fasta sequences)\<rparr>)
                else w')))"

subsection \<open>Names for stating the properties\<close>

text \<open>The server's answer to the request that a call of perform\_rest\_action builds.\<close>

definition response_to ::
  "client \<Rightarrow> 'a world \<Rightarrow> string \<Rightarrow> (string \<times> string) list \<Rightarrow> (string \<times> string) list
     \<Rightarrow> payload option \<Rightarrow> 'a response" where
  "response_to c w e h p r = respond w (length (sent w)) (build_request c e h p r)"

text \<open>The request that get\_sequences builds for one group of regions.\<close>

definition sequence_request :: "client \<Rightarrow> string \<Rightarrow> string \<Rightarrow> string list \<Rightarrow> int \<Rightarrow> int \<Rightarrow> request" where
  "sequence_request c sp assembly val upstream downstream =
     build_request c (''/sequence/region/'' @ sp)
       [(''Content-Type'', ''application/json''), (''Accept'', ''application/json'')]
       [(''coord_system_version'', assembly),
        (''expand_3prime'', str_int downstream),
        (''expand_5prime'', str_int upstream)]
       (Some [(''regions'', val)])"

text \<open>Worlds and inputs for the examples.\<close>

definition quiet_world :: "(nat \<Rightarrow> request \<Rightarrow> 'a response) \<Rightarrow> 'a world" where
  "quiet_world srv =
     \<lparr>clock = (\<lambda>n. 41 / 4 + real n), ticks = 0, slept = [], respond = srv, sent = [],
      stdout = [], files = (\<lambda>f. None)\<rparr>"

definition header_row :: "string \<Rightarrow> row" where
  "header_row s = \<lparr>chrom = StrCell ''chrom'', start = StrCell s, end' = StrCell ''end''\<rparr>"




definition second_fails :: "nat \<Rightarrow> request \<Rightarrow> sequence list response" where
  "second_fails n q =
     (if n = 1 then \<lparr>status = 500, json = None\<rparr>
      else \<lparr>status = 200, json = Some [\<lparr>id' = ''r'', seq = ''ACGT''\<rparr>]\<rparr>)"

definition genomes_answer :: "nat \<Rightarrow> request \<Rightarrow> species_doc response" where
  "genomes_answer n q =
     \<lparr>status = 200,
      json = Some \<lparr>species = [\<lparr>name = ''zebra'', display_name = ''Zebra''\<rparr>,
                               \<lparr>name = ''ant'', display_name = ''Ant''\<rparr>]\<rparr>\<rparr>"


definition example_call :: call where
  "example_call = \<lparr>c_endpoint = ''/info/species'', c_hdrs = [], c_params = [], c_regions = None\<rparr>"

subsection \<open>Readings of the specification, for comparison with the code\<close>



text \<open>
  The specification's chromosome name: the literal value "chrM" becomes "MT", otherwise
  a leading "chr" is taken off.
\<close>

definition spec_chrom :: "string \<Rightarrow> string" where
  "spec_chrom s =
     (if s = ''chrM'' then ''MT'' else if prefix ''chr'' s then drop 3 s else s)"

section \<open>Properties\<close>

subsection \<open>Strings\<close>

lemma contains_shorter: "contains (p @ q) s \<Longrightarrow> contains p s"
  by (induction s) (auto simp: prefix_def)

lemma str_replace_absent: "p \<noteq> [] \<Longrightarrow> \<not> contains p s \<Longrightarrow> str_replace p r s = s"
  by (induction s) auto

lemma not_contains_chrM: "\<not> contains ''chr'' s \<Longrightarrow> \<not> contains ''chrM'' s"
  using contains_shorter [of "''chr''" "''M''" s] by auto

lemma canon_chrom_absent: "\<not> contains ''chr'' s \<Longrightarrow> canon_chrom s = s"
  by (simp add: canon_chrom_def str_replace_absent not_contains_chrM)




text \<open>A name that is "chr" followed by a rest without "chr": the prefix goes, "M" becomes "MT".\<close>

lemma canon_chrom_prefixed:
  assumes "\<not> contains ''chr'' s"
  shows "canon_chrom (''chr'' @ s) =
           (case s of [] \<Rightarrow> [] | x # t \<Rightarrow> if x = CHR ''M'' then ''MT'' @ t else s)"
proof (cases s)
  case Nil
  then show ?thesis by (simp add: canon_chrom_def)
next
  case (Cons x t)
  have a: "str_replace ''chrM'' ''MT'' s = s" and b: "str_replace ''chr'' [] s = s"
    using assms by (simp_all add: str_replace_absent not_contains_chrM)
  have t: "\<not> contains ''chr'' t"
    using assms Cons by simp
  have c: "str_replace ''chrM'' ''MT'' t = t" and d: "str_replace ''chr'' [] t = t"
    using t by (simp_all add: str_replace_absent not_contains_chrM)
  show ?thesis
  proof (cases "x = CHR ''M''")
    case True
    have "str_replace ''chrM'' ''MT'' (''chr'' @ s) = ''MT'' @ t"
      using Cons True c by simp
    then show ?thesis using Cons True d by (simp add: canon_chrom_def)
  next
    case False
    have "str_replace ''chrM'' ''MT'' (''chr'' @ s) = ''chr'' @ s"
      using Cons False a by simp
    then show ?thesis using Cons False b by (simp add: canon_chrom_def)
  qed
qed

text \<open>\<^verbatim>\<open>str\<close> of a natural number: decimal digits, no zero in front.\<close>

lemma digit_char: "d < 10 \<Longrightarrow> ''0123456789'' ! d \<in> set ''0123456789''"
  by (rule nth_mem) simp

lemma digit_char_zero: "d < 10 \<Longrightarrow> (''0123456789'' ! d = CHR ''0'') = (d = 0)"
proof -
  assume "d < 10"
  then have "d \<in> {0, 1, 2, 3, 4, 5, 6, 7, 8, 9}" by auto
  then show ?thesis by auto
qed

lemma str_nat_digits: "isdigit (str_nat n)"
proof (induction n rule: str_nat.induct)
  case (1 n)
  show ?case
  proof (cases "n < 10")
    case True
    then show ?thesis using digit_char [of n] by (subst str_nat.simps) (simp add: isdigit_def)
  next
    case False
    have "n mod 10 < 10" by simp
    then have "''0123456789'' ! (n mod 10) \<in> set ''0123456789''" by (rule digit_char)
    then show ?thesis using False 1 by (subst str_nat.simps) (simp add: isdigit_def)
  qed
qed

lemma str_nat_no_padding: "0 < n \<Longrightarrow> hd (str_nat n) \<noteq> CHR ''0''"
proof (induction n rule: str_nat.induct)
  case (1 n)
  show ?case
  proof (cases "n < 10")
    case True
    then show ?thesis using 1(2) digit_char_zero [of n] by (subst str_nat.simps) simp
  next
    case False
    then have "0 < n div 10" by simp
    then have "hd (str_nat (n div 10)) \<noteq> CHR ''0''" using 1(1) False by simp
    moreover have "str_nat (n div 10) \<noteq> []" using str_nat_digits [of "n div 10"] by (simp add: isdigit_def)
    ultimately show ?thesis using False by (subst str_nat.simps) simp
  qed
qed

subsection \<open>Chromosome names\<close>




subsection \<open>Header row\<close>




subsection \<open>Region strings\<close>

text \<open>
  On a column of strings the rewriting of the whole column is the rewriting of each name:
  when no name contains "chr", no name changes.
\<close>

lemma canon_chroms_names:
  assumes "list_all (\<lambda>r. \<exists>s. chrom r = StrCell s) reads"
  shows "map (\<lambda>r. astype_str (chrom r)) (canon_chroms reads)
           = map (\<lambda>r. canon_chrom (astype_str (chrom r))) reads"
proof (cases "list_ex (\<lambda>r. contains ''chr'' (astype_str (chrom r))) reads")
  case True
  have "astype_str (series_str_replace ''chr'' [] (series_str_replace ''chrM'' ''MT'' (chrom r)))
          = canon_chrom (astype_str (chrom r))" if "r \<in> set reads" for r
    using assms that by (auto simp: list_all_iff canon_chrom_def)
  then show ?thesis using True by (simp add: canon_chroms_def)
next
  case False
  then have "canon_chrom (astype_str (chrom r)) = astype_str (chrom r)" if "r \<in> set reads" for r
    using that by (auto simp: list_ex_iff canon_chrom_absent)
  then show ?thesis using False by (simp add: canon_chroms_def)
qed

text \<open>
  On a name without "chr", and on such a name with "chr" in front (the name "M", or one that
  does not start with "M"), the code gives the name the specification describes.
\<close>

lemma canon_chrom_meets_spec:
  assumes "\<not> contains ''chr'' s"
  shows "canon_chrom s = spec_chrom s"
    and "s = ''M'' \<or> \<not> prefix ''M'' s \<Longrightarrow> canon_chrom (''chr'' @ s) = spec_chrom (''chr'' @ s)"
proof -
  have "\<not> prefix ''chr'' s" using assms by (cases s) auto
  moreover have "s \<noteq> ''chrM''" using assms by auto
  ultimately show "canon_chrom s = spec_chrom s"
    using assms by (simp add: canon_chrom_absent spec_chrom_def)
  show "canon_chrom (''chr'' @ s) = spec_chrom (''chr'' @ s)" if "s = ''M'' \<or> \<not> prefix ''M'' s"
    using that canon_chrom_prefixed [OF assms]
    by (cases s) (auto simp: spec_chrom_def)
qed

text \<open>
  C2. The rows ("scaffold\_chr1", 100, 200) and ("chrMT", 7, 9): the code deletes the "chr"
  inside the first name and turns the second into "MTT", where a name with its "chr" prefix
  taken off is "scaffold\_chr1" and "MT".
\<close>

theorem inner_chr_rewritten:
  "get_regions (Parsed [\<lparr>chrom = StrCell ''scaffold_chr1'', start = IntCell 100, end' = IntCell 200\<rparr>,
                        \<lparr>chrom = StrCell ''chrMT'', start = IntCell 7, end' = IntCell 9\<rparr>])
     = Inr [(''scaffold_1:100..200'', [''scaffold_1:100..200'', ''MTT:7..9''])]
   \<and> spec_chrom ''scaffold_chr1'' = ''scaffold_chr1'' \<and> spec_chrom ''chrMT'' = ''MT''"
  by code_simp

subsection \<open>Groups of fifty\<close>

lemma concat_chunks: "concat (chunks n xs) = xs"
  by (induction n xs rule: chunks.induct) simp_all

lemma length_chunks: "0 < n \<Longrightarrow> length (chunks n xs) = (length xs + n - 1) div n"
proof (induction n xs rule: chunks.induct)
  case (1 n)
  then show ?case by simp
next
  case (2 n x xs)
  show ?case
  proof (cases "n - 1 \<le> length xs")
    case True
    then have "length (drop (n - 1) xs) + n - 1 = length xs" using 2(2) by simp
    moreover have "(length xs + n) div n = Suc (length xs div n)" using 2(2) by simp
    ultimately show ?thesis using 2 by simp
  next
    case False
    then have "(length xs + n) div n = 1" using 2(2) by (simp add: div_eq_dividend_iff)
    with False 2 show ?thesis by simp
  qed
qed

lemma chunks_nonempty: "g \<in> set (chunks n xs) \<Longrightarrow> g \<noteq> []"
  by (induction n xs rule: chunks.induct) auto

lemma chunks_size: "0 < n \<Longrightarrow> g \<in> set (chunks n xs) \<Longrightarrow> length g \<le> n"
  by (induction n xs rule: chunks.induct) auto

lemma dict_update_fresh: "k \<notin> fst ` set d \<Longrightarrow> dict_update k v d = d @ [(k, v)]"
  by (induction d) auto

lemma fold_add_group_fresh:
  "[] \<notin> set gs \<Longrightarrow> distinct (map fst d @ map (\<lambda>g. region (hd g)) gs) \<Longrightarrow>
   fold add_group gs d = d @ map (\<lambda>g. (region (hd g), map region g)) gs"
proof (induction gs arbitrary: d)
  case Nil
  then show ?case by simp
next
  case (Cons g gs)
  from Cons.prems obtain r rs where g: "g = r # rs" by (cases g) auto
  have fresh: "region r \<notin> fst ` set d" using Cons.prems(2) g by auto
  have step: "add_group g d = d @ [(region r, map region g)]"
    using fresh g by (simp add: add_group_def dict_update_fresh)
  have "distinct (map fst (add_group g d) @ map (\<lambda>g. region (hd g)) gs)"
    using Cons.prems(2) g step by auto
  then have "fold add_group gs (add_group g d)
               = add_group g d @ map (\<lambda>g. (region (hd g), map region g)) gs"
    using Cons.IH Cons.prems(1) by simp
  then show ?case using step g by simp
qed

text \<open>
  When the groups start with different regions, the dict holds every region once, in input
  order, in as many entries as there are groups.
\<close>

lemma group_regions_fresh:
  assumes "distinct (map (\<lambda>g. region (hd g)) (chunks 50 reads))"
  shows "concat (map snd (group_regions reads)) = map region reads"
    and "length (group_regions reads) = (length reads + 49) div 50"
proof -
  have ne: "[] \<notin> set (chunks 50 reads)" using chunks_nonempty by blast
  have eq: "group_regions reads = map (\<lambda>g. (region (hd g), map region g)) (chunks 50 reads)"
    unfolding group_regions_def using fold_add_group_fresh [OF ne, of "[]"] assms by simp
  have "concat (map snd (group_regions reads)) = concat (map (map region) (chunks 50 reads))"
    by (simp add: eq comp_def)
  also have "\<dots> = map region (concat (chunks 50 reads))" by (simp add: map_concat)
  finally show "concat (map snd (group_regions reads)) = map region reads"
    by (simp add: concat_chunks)
  show "length (group_regions reads) = (length reads + 49) div 50"
    using length_chunks [of 50 reads] by (simp add: eq)
qed

text \<open>
  C1. Fifty-one equal rows (1, 100, 200) make two groups with the same first region. The
  second dict entry overwrites the first: one batch with one region is returned, where
  two batches with fifty-one regions are due.
\<close>

theorem batch_key_collision:
  "get_regions (Parsed (replicate 51 \<lparr>chrom = IntCell 1, start = IntCell 100, end' = IntCell 200\<rparr>))
     = Inr [(''1:100..200'', [''1:100..200''])]
   \<and> map region (canon_chroms
         (replicate 51 \<lparr>chrom = IntCell 1, start = IntCell 100, end' = IntCell 200\<rparr>))
     = replicate 51 ''1:100..200''"
  by code_simp

subsection \<open>Input without data rows\<close>

text \<open>
  C7. get\_regions never returns an empty dict: a table that is empty, or holds the header
  row only, ends in the \<^verbatim>\<open>IndexError\<close> of line 173, and retrieve\_seq ends with it.
\<close>

theorem no_data_rows_raise:
  "get_regions bed \<noteq> Inr []
   \<and> get_regions (Parsed []) = Inl IndexError
   \<and> get_regions (Parsed [header_row ''start'']) = Inl IndexError
   \<and> retrieve_seq a (Parsed [header_row ''start'']) w = (Inl IndexError, w)"
proof -
  have a: "build_regions [] = Inl IndexError"
    by (simp add: build_regions_def group_regions_def canon_chroms_def)
  have b: "build_regions reads \<noteq> Inr []" for reads
    by (simp add: build_regions_def Let_def split: list.splits)
  have c: "get_regions (Parsed [header_row ''start'']) = Inl IndexError"
    by (simp add: get_regions_def check_header_def header_row_def isdigit_def a)
  have "get_regions bed \<noteq> Inr []"
    using b by (auto simp: get_regions_def split: csv.splits sum.splits)
  moreover have "get_regions (Parsed []) = Inl IndexError"
    by (simp add: get_regions_def check_header_def)
  ultimately show ?thesis using c by (simp add: retrieve_seq_def)
qed

text \<open>Over an empty dict the loop of submit\_regions sends nothing and returns no sequence.\<close>

lemma submit_regions_empty: "submit_regions c w sp assembly [] upstream downstream = (Inr [], c, w)"
  by (simp add: submit_regions_def)

subsection \<open>One call of perform\_rest\_action\<close>

lemma check_rate_limit_keeps [simp]:
  "server (fst (check_rate_limit c w)) = server c"
  "reqs_per_sec (fst (check_rate_limit c w)) = reqs_per_sec c"
  "respond (snd (check_rate_limit c w)) = respond w"
  "sent (snd (check_rate_limit c w)) = sent w"
  "stdout (snd (check_rate_limit c w)) = stdout w"
  "files (snd (check_rate_limit c w)) = files w"
  by (simp_all add: check_rate_limit_def Let_def)

lemma check_rate_limit_count:
  "req_count (fst (check_rate_limit c w)) = (if req_count c \<ge> reqs_per_sec c then 0 else req_count c)"
  by (simp add: check_rate_limit_def Let_def)

lemma build_request_server:
  "server c' = server c \<Longrightarrow> build_request c' e h p r = build_request c e h p r"
  by (simp add: build_request_def)

lemma perform_rest_action_eq:
  "perform_rest_action c w e h p r =
     (let c1 = fst (check_rate_limit c w); w1 = snd (check_rate_limit c w);
          resp = response_to c w e h p r;
          w2 = w1\<lparr>sent := sent w @ [build_request c e h p r]\<rparr>
      in if \<not> ok resp then (Inl (HTTPError (status resp)), c1, w2)
         else (case json resp of
                 None \<Rightarrow> (Inl JSONDecodeError, c1, w2)
               | Some d \<Rightarrow> (Inr d, c1\<lparr>req_count := req_count c1 + 1\<rparr>, w2)))"
  by (simp add: perform_rest_action_def response_to_def Let_def split_beta
      build_request_server [of "fst (check_rate_limit c w)" c] split: option.split)

lemma perform_rest_action_keeps:
  assumes "perform_rest_action c w e h p r = (res, c', w')"
  shows "server c' = server c" "reqs_per_sec c' = reqs_per_sec c" "respond w' = respond w"
    "sent w' = sent w @ [build_request c e h p r]" "stdout w' = stdout w" "files w' = files w"
  using assms by (auto simp: perform_rest_action_eq Let_def split: if_splits option.splits)

subsection \<open>Rate limit\<close>

text \<open>
  C5. The ceiling of a client made with the default arguments is 15. When the counter has
  reached the ceiling, the check reads the clock, sleeps for one second minus the time since
  the anchor if that time is below one second, sets the counter to zero and makes the next
  clock reading the anchor. Below the ceiling nothing changes and nothing is slept. A call
  of perform\_rest\_action sleeps what this check sleeps and nothing more.
\<close>

theorem rate_limit_step:
  "reqs_per_sec default_client = 15 \<and>
   (req_count c \<ge> reqs_per_sec c \<longrightarrow>
      slept (snd (check_rate_limit c w))
        = slept w @ (if clock w (ticks w) - last_req c < 1
                     then [1 - (clock w (ticks w) - last_req c)] else [])
      \<and> req_count (fst (check_rate_limit c w)) = 0
      \<and> last_req (fst (check_rate_limit c w)) = clock w (ticks w + 1)) \<and>
   (req_count c < reqs_per_sec c \<longrightarrow> check_rate_limit c w = (c, w)) \<and>
   slept (snd (snd (perform_rest_action c w e h p r))) = slept (snd (check_rate_limit c w))"
  by (simp add: default_client_def EnsemblRestClient_def check_rate_limit_def Let_def
      perform_rest_action_eq split: option.split)

theorem rate_limit_step_witness:
  "req_count (default_client\<lparr>req_count := 15, last_req := 10\<rparr>)
     \<ge> reqs_per_sec (default_client\<lparr>req_count := 15, last_req := 10\<rparr>)
   \<and> slept (snd (check_rate_limit (default_client\<lparr>req_count := 15, last_req := 10\<rparr>)
        (quiet_world (\<lambda>n q. \<lparr>status = 200, json = None\<rparr>) :: unit world))) = [3 / 4]
   \<and> last_req (fst (check_rate_limit (default_client\<lparr>req_count := 15, last_req := 10\<rparr>)
        (quiet_world (\<lambda>n q. \<lparr>status = 200, json = None\<rparr>) :: unit world))) = 45 / 4
   \<and> req_count (default_client\<lparr>req_count := 14\<rparr>)
        < reqs_per_sec (default_client\<lparr>req_count := 14\<rparr>)
   \<and> slept (snd (check_rate_limit (default_client\<lparr>req_count := 14\<rparr>)
        (quiet_world (\<lambda>n q. \<lparr>status = 200, json = None\<rparr>) :: unit world))) = []"
  using rate_limit_step [of "default_client\<lparr>req_count := 15, last_req := 10\<rparr>"
      "quiet_world (\<lambda>n q. \<lparr>status = 200, json = None\<rparr>) :: unit world"]
    rate_limit_step [of "default_client\<lparr>req_count := 14\<rparr>"
      "quiet_world (\<lambda>n q. \<lparr>status = 200, json = None\<rparr>) :: unit world"]
  by (simp add: default_client_def EnsemblRestClient_def quiet_world_def)

subsection \<open>Method and body of a request\<close>

text \<open>
  C6. Every call of perform\_rest\_action sends one request, with the headers it was given:
  a POST carrying the body when the body is true in Python's sense (not \<^verbatim>\<open>None\<close> and
  not empty), a GET without body otherwise. get\_sequences always passes the dict with the
  key "regions" and so sends a POST with that dict as JSON body and the header
  Content-Type: application/json; get\_genomes and get\_assemblies pass no body and send a GET.
\<close>

theorem request_method:
  "sent (snd (snd (perform_rest_action c w e h p r))) = sent w @ [build_request c e h p r]
   \<and> meth (build_request c e h p r) = (if truthy r then POST else GET)
   \<and> data (build_request c e h p r) = (if truthy r then r else None)
   \<and> headers (build_request c e h p r) = h
   \<and> sent (snd (snd (get_sequences c ws sp asm [(''regions'', v)] up down)))
        = sent ws @ [sequence_request c sp asm v up down]
   \<and> meth (sequence_request c sp asm v up down) = POST
   \<and> data (sequence_request c sp asm v up down) = Some [(''regions'', v)]
   \<and> (''Content-Type'', ''application/json'') \<in> set (headers (sequence_request c sp asm v up down))
   \<and> (\<exists>q. sent (snd (snd (get_genomes c wg))) = sent wg @ [q] \<and> meth q = GET \<and> data q = None)
   \<and> (\<exists>q. sent (snd (snd (get_assemblies c wa sp))) = sent wa @ [q] \<and> meth q = GET \<and> data q = None)"
proof -
  have sent_pra: "sent (snd (snd (perform_rest_action c w e h p r))) = sent w @ [build_request c e h p r]"
    for c and w :: "'x world" and e h p r
    by (simp add: perform_rest_action_eq Let_def split: option.split)
  have g: "sent (snd (snd (get_genomes c wg)))
             = sent wg @ [build_request c ''/info/species'' [(''Content-Type'', ''application/json'')] [] None]"
    by (simp add: get_genomes_def perform_rest_action_eq Let_def split: option.split)
  have a: "sent (snd (snd (get_assemblies c wa sp)))
             = sent wa @ [build_request c (''/info/assembly/'' @ sp) [(''Content-Type'', ''application/json'')] [] None]"
    by (simp add: get_assemblies_def perform_rest_action_eq Let_def split: option.split)
  have s: "sent (snd (snd (get_sequences c ws sp asm [(''regions'', v)] up down)))
        = sent ws @ [sequence_request c sp asm v up down]"
    by (simp add: get_sequences_def sequence_request_def sent_pra)
  show ?thesis
    using g a s sent_pra [of c w e h p r]
    by (simp add: build_request_def sequence_request_def)
qed

theorem request_method_witness:
  "sent (snd (snd (get_sequences default_client (quiet_world second_fails) ''human'' ''GRCh37''
       [(''regions'', [''1:1000..2000'', ''MT:50..100''])] 0 0)))
     = [\<lparr>meth = POST, url = ''https://rest.ensembl.org/sequence/region/human?'',
         query = [(''coord_system_version'', ''GRCh37''), (''expand_3prime'', ''0''),
                  (''expand_5prime'', ''0'')],
         headers = [(''Content-Type'', ''application/json''), (''Accept'', ''application/json'')],
         data = Some [(''regions'', [''1:1000..2000'', ''MT:50..100''])]\<rparr>]"
proof -
  have "sent (snd (snd (get_sequences default_client (quiet_world second_fails) ''human''
          ''GRCh37'' [(''regions'', [''1:1000..2000'', ''MT:50..100''])] 0 0)))
        = sent (quiet_world second_fails)
          @ [sequence_request default_client ''human'' ''GRCh37''
               [''1:1000..2000'', ''MT:50..100''] 0 0]"
    using request_method [where c = default_client and ws = "quiet_world second_fails"
        and sp = "''human''" and asm = "''GRCh37''" and v = "[''1:1000..2000'', ''MT:50..100'']"
        and up = 0 and down = 0 and w = "quiet_world second_fails" and e = "[]" and h = "[]"
        and p = "[]" and r = None and wg = "quiet_world genomes_answer"
        and wa = "quiet_world (\<lambda>n q. \<lparr>status = 200, json = None\<rparr>)"]
    by blast
  then show ?thesis
    by (simp add: quiet_world_def sequence_request_def build_request_def default_client_def
        EnsemblRestClient_def str_int_def str_nat.simps)
qed

subsection \<open>The request counter\<close>

lemma perform_rest_action_count:
  assumes "perform_rest_action c w e h p r = (res, c', w')"
  shows "req_count c' = (if req_count c \<ge> reqs_per_sec c then 0 else req_count c)
           + (case res of Inl err \<Rightarrow> 0 | Inr d \<Rightarrow> 1)"
    and "(\<exists>d. res = Inr d) = (ok (response_to c w e h p r) \<and> json (response_to c w e h p r) \<noteq> None)"
  using assms
  by (auto simp: perform_rest_action_eq Let_def check_rate_limit_count split: if_splits option.splits)

lemma perform_rest_action_inv:
  assumes "perform_rest_action c w e h p r = (res, c', w')"
    and "1 \<le> reqs_per_sec c" "0 \<le> req_count c" "req_count c \<le> reqs_per_sec c"
  shows "reqs_per_sec c' = reqs_per_sec c \<and> 0 \<le> req_count c' \<and> req_count c' \<le> reqs_per_sec c'"
  using perform_rest_action_count(1) [OF assms(1)] perform_rest_action_keeps(2) [OF assms(1)] assms(2-)
  by (auto split: sum.splits if_splits)

lemma perform_calls_inv:
  "perform_calls c w xs = (c', w') \<Longrightarrow> 1 \<le> reqs_per_sec c \<Longrightarrow> 0 \<le> req_count c \<Longrightarrow>
   req_count c \<le> reqs_per_sec c \<Longrightarrow>
   reqs_per_sec c' = reqs_per_sec c \<and> 0 \<le> req_count c' \<and> req_count c' \<le> reqs_per_sec c'"
proof (induction xs arbitrary: c w)
  case Nil
  then show ?case by simp
next
  case (Cons x xs)
  obtain res c1 w1 where step:
    "perform_rest_action c w (c_endpoint x) (c_hdrs x) (c_params x) (c_regions x) = (res, c1, w1)"
    by (metis prod_cases3)
  have inv: "reqs_per_sec c1 = reqs_per_sec c \<and> 0 \<le> req_count c1 \<and> req_count c1 \<le> reqs_per_sec c1"
    using perform_rest_action_inv [OF step] Cons.prems by simp
  have "perform_calls c1 w1 xs = (c', w')" using Cons.prems(1) step by simp
  then show ?case using Cons.IH [of c1 w1] inv Cons.prems by simp
qed

text \<open>
  C10. A call adds one to the counter (after the reset of the rate limit check, if that
  applied) exactly when it returns a decoded body, that is when the status is a success and
  the body decodes; a call that raises adds nothing. On a client made with a ceiling of at
  least one, the counter stays between zero and the ceiling through any series of calls.
\<close>

theorem req_count_invariant:
  "(perform_rest_action c w e h p r = (res, c', w') \<longrightarrow>
      req_count c' = (if req_count c \<ge> reqs_per_sec c then 0 else req_count c)
                       + (case res of Inl err \<Rightarrow> 0 | Inr d \<Rightarrow> 1)
      \<and> ((\<exists>d. res = Inr d) = (ok (response_to c w e h p r) \<and> json (response_to c w e h p r) \<noteq> None)))
   \<and> (1 \<le> n \<longrightarrow> perform_calls (EnsemblRestClient srv n) w xs = (c'', w'') \<longrightarrow>
        0 \<le> req_count c'' \<and> req_count c'' \<le> reqs_per_sec c'' \<and> reqs_per_sec c'' = n)"
proof -
  have "0 \<le> req_count c'' \<and> req_count c'' \<le> reqs_per_sec c'' \<and> reqs_per_sec c'' = n"
    if "1 \<le> n" "perform_calls (EnsemblRestClient srv n) w xs = (c'', w'')"
    using perform_calls_inv [OF that(2)] that(1) by (simp add: EnsemblRestClient_def)
  then show ?thesis
    using perform_rest_action_count [of c w e h p r res c' w'] by blast
qed

theorem req_count_invariant_witness:
  "(1::int) \<le> 2
   \<and> req_count (fst (perform_calls (EnsemblRestClient ''https://rest.ensembl.org'' 2)
        (quiet_world second_fails) [example_call, example_call, example_call, example_call])) = 1
   \<and> reqs_per_sec (fst (perform_calls (EnsemblRestClient ''https://rest.ensembl.org'' 2)
        (quiet_world second_fails) [example_call, example_call, example_call, example_call])) = 2"
proof -
  let ?run = "perform_calls (EnsemblRestClient ''https://rest.ensembl.org'' 2)
        (quiet_world second_fails) [example_call, example_call, example_call, example_call]"
  have run: "req_count (fst ?run) = 1"
    by (simp add: EnsemblRestClient_def quiet_world_def second_fails_def perform_rest_action_def
        check_rate_limit_def build_request_def ok_def Let_def example_call_def)
  show ?thesis
    using run req_count_invariant [where n = 2 and srv = "''https://rest.ensembl.org''"
        and w = "quiet_world second_fails"
        and xs = "[example_call, example_call, example_call, example_call]"
        and c'' = "fst ?run" and w'' = "snd ?run"]
    by simp
qed

subsection \<open>Failure of a batch\<close>

lemma get_sequences_eq:
  "get_sequences c w sp asm [(''regions'', v)] up down =
     (let resp = respond w (length (sent w)) (sequence_request c sp asm v up down);
          c1 = fst (check_rate_limit c w);
          w2 = (snd (check_rate_limit c w))\<lparr>sent := sent w @ [sequence_request c sp asm v up down]\<rparr>
      in if \<not> ok resp then (Inl (HTTPError (status resp)), c1, w2)
         else (case json resp of
                 None \<Rightarrow> (Inl JSONDecodeError, c1, w2)
               | Some d \<Rightarrow> (Inr d, c1\<lparr>req_count := req_count c1 + 1\<rparr>, w2)))"
  by (simp add: get_sequences_def perform_rest_action_eq response_to_def sequence_request_def Let_def)

lemma get_sequences_keeps:
  assumes "get_sequences c w sp asm [(''regions'', v)] up down = (res, c', w')"
  shows "server c' = server c" "respond w' = respond w" "stdout w' = stdout w" "files w' = files w"
    "length (sent w') = Suc (length (sent w))"
  using assms by (auto simp: get_sequences_eq Let_def split: if_splits option.splits)


lemma submit_loop_keeps:
  "submit_loop c w sp asm items up down acc = (res, c', w') \<Longrightarrow>
   stdout w' = stdout w \<and> files w' = files w \<and> respond w' = respond w"
proof (induction items arbitrary: c w acc)
  case Nil
  then show ?case by simp
next
  case (Cons kv items)
  obtain key val where kv: "kv = (key, val)" by (cases kv)
  obtain r1 c1 w1 where step: "get_sequences c w sp asm [(''regions'', val)] up down = (r1, c1, w1)"
    by (metis prod_cases3)
  note keep = get_sequences_keeps [OF step]
  show ?case
  proof (cases r1)
    case (Inl e)
    then show ?thesis using Cons.prems kv step keep by auto
  next
    case (Inr subs)
    then have "submit_loop c1 w1 sp asm items up down (acc @ subs) = (res, c', w')"
      using Cons.prems kv step by simp
    from Cons.IH [OF this] show ?thesis using keep by simp
  qed
qed


text \<open>Whatever the exception, retrieve\_seq has written nothing when it ends with one.\<close>

lemma retrieve_seq_error_keeps_output:
  "retrieve_seq a bed w = (Inl e, w') \<Longrightarrow> stdout w' = stdout w \<and> files w' = files w"
  by (auto simp: retrieve_seq_def submit_regions_def split: sum.splits prod.splits
      dest: submit_loop_keeps)



subsection \<open>List of genomes\<close>



end
